theory Spec2Isabelle
  imports
    Main
    "HOL-Library.Word"
    "HOL-Library.Signed_Division"
    "HOL-Library.Log_Nat"
    "HOL-Library.Char_ord"
    "HOL-Library.List_Lexorder"
begin

unbundle bit_operations_syntax

section \<open>Bytes and strings\<close>

text \<open>
  A Go \<open>string\<close> is a sequence of bytes and is modelled as an Isabelle \<open>string\<close>
  (a list of 8-bit characters); a Go \<open>[]byte\<close> is a list of 8-bit words.  The
  conversions \<open>[]byte(s)\<close> and \<open>string(b)\<close> keep every byte.
\<close>

type_synonym byte = "8 word"
type_synonym bytes = "byte list"
type_synonym u32 = "32 word"

definition byte_of_char :: "char \<Rightarrow> byte" where
  "byte_of_char c = of_nat (of_char c)"

definition char_of_byte :: "byte \<Rightarrow> char" where
  "char_of_byte b = char_of (unat b)"

definition bytes_of_string :: "string \<Rightarrow> bytes" where
  "bytes_of_string s = map byte_of_char s"

definition string_of_bytes :: "bytes \<Rightarrow> string" where
  "string_of_bytes bs = map char_of_byte bs"

section \<open>Standard library: crypto/sha256 (FIPS 180-4)\<close>

text \<open>The round constants, eight per row.\<close>

definition K256 :: "u32 list" where
  "K256 = concat
   [[0x428a2f98, 0x71374491, 0xb5c0fbcf, 0xe9b5dba5, 0x3956c25b, 0x59f111f1, 0x923f82a4, 0xab1c5ed5],
    [0xd807aa98, 0x12835b01, 0x243185be, 0x550c7dc3, 0x72be5d74, 0x80deb1fe, 0x9bdc06a7, 0xc19bf174],
    [0xe49b69c1, 0xefbe4786, 0x0fc19dc6, 0x240ca1cc, 0x2de92c6f, 0x4a7484aa, 0x5cb0a9dc, 0x76f988da],
    [0x983e5152, 0xa831c66d, 0xb00327c8, 0xbf597fc7, 0xc6e00bf3, 0xd5a79147, 0x06ca6351, 0x14292967],
    [0x27b70a85, 0x2e1b2138, 0x4d2c6dfc, 0x53380d13, 0x650a7354, 0x766a0abb, 0x81c2c92e, 0x92722c85],
    [0xa2bfe8a1, 0xa81a664b, 0xc24b8b70, 0xc76c51a3, 0xd192e819, 0xd6990624, 0xf40e3585, 0x106aa070],
    [0x19a4c116, 0x1e376c08, 0x2748774c, 0x34b0bcb5, 0x391c0cb3, 0x4ed8aa4a, 0x5b9cca4f, 0x682e6ff3],
    [0x748f82ee, 0x78a5636f, 0x84c87814, 0x8cc70208, 0x90befffa, 0xa4506ceb, 0xbef9a3f7, 0xc67178f2]]"

definition rotr :: "nat \<Rightarrow> u32 \<Rightarrow> u32" where
  "rotr n x = drop_bit n x OR push_bit (32 - n) x"

definition bsig0 :: "u32 \<Rightarrow> u32" where
  "bsig0 x = rotr 2 x XOR rotr 13 x XOR rotr 22 x"

definition bsig1 :: "u32 \<Rightarrow> u32" where
  "bsig1 x = rotr 6 x XOR rotr 11 x XOR rotr 25 x"

definition ssig0 :: "u32 \<Rightarrow> u32" where
  "ssig0 x = rotr 7 x XOR rotr 18 x XOR drop_bit 3 x"

definition ssig1 :: "u32 \<Rightarrow> u32" where
  "ssig1 x = rotr 17 x XOR rotr 19 x XOR drop_bit 10 x"

definition ch :: "u32 \<Rightarrow> u32 \<Rightarrow> u32 \<Rightarrow> u32" where
  "ch x y z = (x AND y) XOR (NOT x AND z)"

definition maj :: "u32 \<Rightarrow> u32 \<Rightarrow> u32 \<Rightarrow> u32" where
  "maj x y z = (x AND y) XOR (x AND z) XOR (y AND z)"

definition be32 :: "bytes \<Rightarrow> u32" where
  "be32 bs = foldl (\<lambda>acc b. push_bit 8 acc OR ucast b) 0 bs"

definition be_bytes32 :: "u32 \<Rightarrow> bytes" where
  "be_bytes32 w = [ucast (drop_bit 24 w), ucast (drop_bit 16 w), ucast (drop_bit 8 w), ucast w]"

definition be_bytes64 :: "64 word \<Rightarrow> bytes" where
  "be_bytes64 w = map (\<lambda>i. ucast (drop_bit (8 * i) w)) [7, 6, 5, 4, 3, 2, 1, 0]"

fun chunks :: "nat \<Rightarrow> 'a list \<Rightarrow> 'a list list" where
  "chunks n [] = []"
| "chunks 0 xs = []"
| "chunks n xs = take n xs # chunks n (drop n xs)"

definition sha256_pad :: "bytes \<Rightarrow> bytes" where
  "sha256_pad m =
     m @ [0x80] @ replicate ((119 - length m mod 64) mod 64) 0
       @ be_bytes64 (of_nat (8 * length m))"

fun schedule :: "nat \<Rightarrow> u32 list \<Rightarrow> u32 list" where
  "schedule 0 w = w"
| "schedule (Suc n) w =
     (let i = length w in
      schedule n (w @ [ssig1 (w ! (i - 2)) + w ! (i - 7) + ssig0 (w ! (i - 15)) + w ! (i - 16)]))"

type_synonym sha_state = "u32 \<times> u32 \<times> u32 \<times> u32 \<times> u32 \<times> u32 \<times> u32 \<times> u32"

fun sha_round :: "sha_state \<Rightarrow> u32 \<times> u32 \<Rightarrow> sha_state" where
  "sha_round (a, b, c, d, e, f, g, h) (k, w) =
     (let t1 = h + bsig1 e + ch e f g + k + w;
          t2 = bsig0 a + maj a b c
      in (t1 + t2, a, b, c, d + t1, e, f, g))"

fun sha_add :: "sha_state \<Rightarrow> sha_state \<Rightarrow> sha_state" where
  "sha_add (a, b, c, d, e, f, g, h) (a', b', c', d', e', f', g', h') =
     (a + a', b + b', c + c', d + d', e + e', f + f', g + g', h + h')"

definition sha_block :: "sha_state \<Rightarrow> bytes \<Rightarrow> sha_state" where
  "sha_block st blk =
     (let w = schedule 48 (map be32 (chunks 4 blk))
      in sha_add st (foldl sha_round st (zip K256 w)))"

definition sha_init :: sha_state where
  "sha_init = (0x6a09e667, 0xbb67ae85, 0x3c6ef372, 0xa54ff53a,
               0x510e527f, 0x9b05688c, 0x1f83d9ab, 0x5be0cd19)"

fun sha_digest :: "sha_state \<Rightarrow> bytes" where
  "sha_digest (a, b, c, d, e, f, g, h) = concat (map be_bytes32 [a, b, c, d, e, f, g, h])"

definition sha256 :: "bytes \<Rightarrow> bytes" where
  "sha256 m = sha_digest (foldl sha_block sha_init (chunks 64 (sha256_pad m)))"

section \<open>Standard library: encoding/hex\<close>

definition hextable :: string where
  "hextable = ''0123456789abcdef''"

definition hex_EncodeToString :: "bytes \<Rightarrow> string" where
  "hex_EncodeToString bs =
     concat (map (\<lambda>b. [hextable ! unat (drop_bit 4 b), hextable ! unat (b AND 0x0f)]) bs)"

text \<open>The reverse table of \<open>encoding/hex\<close>: both cases of the letters are digits.\<close>

definition fromHexChar :: "char \<Rightarrow> byte option" where
  "fromHexChar c =
     (let n = (of_char c :: nat) in
      if 48 \<le> n \<and> n \<le> 57 then Some (of_nat (n - 48))
      else if 97 \<le> n \<and> n \<le> 102 then Some (of_nat (n - 97 + 10))
      else if 65 \<le> n \<and> n \<le> 70 then Some (of_nat (n - 65 + 10))
      else None)"

text \<open>
  \<open>hex.DecodeString\<close> returns the bytes decoded before the first error together with
  the error; the second component is \<open>True\<close> when an error (invalid byte or odd
  length) is reported.
\<close>

fun hex_DecodeString :: "string \<Rightarrow> bytes \<times> bool" where
  "hex_DecodeString [] = ([], False)"
| "hex_DecodeString [p] = ([], True)"
| "hex_DecodeString (p # q # rest) =
     (case fromHexChar p of
        None \<Rightarrow> ([], True)
      | Some a \<Rightarrow>
         (case fromHexChar q of
            None \<Rightarrow> ([], True)
          | Some b \<Rightarrow>
             (let r = hex_DecodeString rest
              in ((push_bit 4 a OR b) # fst r, snd r))))"

section \<open>Standard library: bytes\<close>

text \<open>
  \<open>bytes.Compare\<close>: lexicographic comparison of the unsigned byte values, a proper
  prefix being smaller; the result is \<open>-1\<close>, \<open>0\<close> or \<open>1\<close>.
\<close>

fun bytes_Compare :: "bytes \<Rightarrow> bytes \<Rightarrow> int" where
  "bytes_Compare [] [] = 0"
| "bytes_Compare [] (y # ys) = - 1"
| "bytes_Compare (x # xs) [] = 1"
| "bytes_Compare (x # xs) (y # ys) =
     (if x < y then - 1 else if y < x then 1 else bytes_Compare xs ys)"

definition bytes_Equal :: "bytes \<Rightarrow> bytes \<Rightarrow> bool" where
  "bytes_Equal a b = (a = b)"

section \<open>The audit client: content hash and Merkle proof\<close>

text \<open>
  \<open>normalizeHash\<close> drops an optional \<open>0x\<close> prefix and hex-decodes the rest; the error of
  \<open>hex.DecodeString\<close> is assigned to the blank identifier.
\<close>

definition normalizeHash :: "string \<Rightarrow> bytes" where
  "normalizeHash h =
     (let h' = (if length h \<ge> 2 \<and> take 2 h = ''0x'' then drop 2 h else h)
      in fst (hex_DecodeString h'))"

text \<open>
  \<open>hashPair\<close> swaps its operands when \<open>left\<close> compares greater than \<open>right\<close>.  The
  \<open>append\<close> may reuse spare capacity behind \<open>left\<close>, which no later read observes.
\<close>

definition hashPair :: "bytes \<Rightarrow> bytes \<Rightarrow> bytes" where
  "hashPair left right =
     (let (l, r) = (if bytes_Compare left right > 0 then (right, left) else (left, right));
          combined = l @ r
      in sha256 combined)"

text \<open>
  The loop of \<open>VerifyProofLocally\<close> over \<open>proofPath\<close>.  \<open>leafIndex\<close> is a Go \<open>int\<close>;
  \<open>%\<close> and \<open>/\<close> truncate towards zero (\<open>smod\<close>, \<open>sdiv\<close>), and dividing by two never
  overflows.
\<close>

fun proof_loop :: "bytes \<Rightarrow> int \<Rightarrow> string list \<Rightarrow> bytes" where
  "proof_loop current idx [] = current"
| "proof_loop current idx (siblingHex # rest) =
     (let sibling = normalizeHash siblingHex;
          current' = (if idx smod 2 = 0 then hashPair current sibling
                      else hashPair sibling current)
      in proof_loop current' (idx sdiv 2) rest)"

definition VerifyProofLocally :: "string \<Rightarrow> string list \<Rightarrow> int \<Rightarrow> string \<Rightarrow> bool" where
  "VerifyProofLocally contentHash proofPath leafIndex merkleRoot =
     (let current = proof_loop (normalizeHash contentHash) leafIndex proofPath;
          expected = normalizeHash merkleRoot
      in bytes_Equal current expected)"

text \<open>
  \<open>ComputeContentHash\<close>.  A Go map is represented by its entries, listed in the order in
  which \<open>range\<close> happens to yield them (keys distinct).  The values are of an arbitrary
  type; \<open>enc_key\<close> is the JSON string encoding of a key and \<open>enc_val\<close> the JSON encoding
  of a value, \<open>None\<close> when \<open>encoding/json\<close> reports an error for it.
\<close>

type_synonym 'v gomap = "(string \<times> 'v) list"

fun intercalate :: "'a list \<Rightarrow> 'a list list \<Rightarrow> 'a list" where
  "intercalate sep [] = []"
| "intercalate sep [x] = x"
| "intercalate sep (x # y # ys) = x @ sep @ intercalate sep (y # ys)"

fun those_list :: "'a option list \<Rightarrow> 'a list option" where
  "those_list [] = Some []"
| "those_list (None # xs) = None"
| "those_list (Some x # xs) = map_option ((#) x) (those_list xs)"

text \<open>
  \<open>json.Marshal\<close> of a map: the entries in ascending key order, written as
  \<open>{key:value,...}\<close>; the first value that cannot be encoded makes the call fail.
\<close>

definition json_Marshal :: "(string \<Rightarrow> bytes) \<Rightarrow> ('v \<Rightarrow> bytes option) \<Rightarrow> 'v gomap \<Rightarrow> bytes option" where
  "json_Marshal enc_key enc_val m =
     (case those_list (map (\<lambda>(k, v). map_option (\<lambda>e. enc_key k @ [0x3a] @ e) (enc_val v))
                          (sort_key fst m)) of
        None \<Rightarrow> None
      | Some parts \<Rightarrow> Some ([0x7b] @ intercalate [0x2c] parts @ [0x7d]))"

definition ComputeContentHash :: "(string \<Rightarrow> bytes) \<Rightarrow> ('v \<Rightarrow> bytes option) \<Rightarrow> 'v gomap \<Rightarrow> string" where
  "ComputeContentHash enc_key enc_val data =
     (let keys = map fst data;
          keys = sort keys;
          sorted = map (\<lambda>k. (k, the (map_of data k))) keys;
          canonical = (case json_Marshal enc_key enc_val sorted of None \<Rightarrow> [] | Some c \<Rightarrow> c);
          hash = sha256 canonical
      in ''0x'' @ hex_EncodeToString hash)"

section \<open>Standard library: strconv, crypto/hmac, crypto/subtle, math\<close>

definition digit_char :: "nat \<Rightarrow> char" where
  "digit_char d = char_of (48 + d)"

fun fmt_nat :: "nat \<Rightarrow> string" where
  "fmt_nat n = (if n < 10 then [digit_char n] else fmt_nat (n div 10) @ [digit_char (n mod 10)])"

declare fmt_nat.simps [simp del]

text \<open>\<open>strconv.FormatInt(i, 10)\<close>.\<close>

definition strconv_FormatInt :: "64 word \<Rightarrow> string" where
  "strconv_FormatInt i =
     (if sint i < 0 then CHR ''-'' # fmt_nat (nat (- sint i)) else fmt_nat (nat (sint i)))"

definition digit_val :: "char \<Rightarrow> nat option" where
  "digit_val c =
     (let n = (of_char c :: nat) in if 48 \<le> n \<and> n \<le> 57 then Some (n - 48) else None)"

fun parse_digits :: "nat \<Rightarrow> string \<Rightarrow> nat option" where
  "parse_digits acc [] = Some acc"
| "parse_digits acc (c # cs) =
     (case digit_val c of None \<Rightarrow> None | Some d \<Rightarrow> parse_digits (acc * 10 + d) cs)"

text \<open>
  \<open>strconv.ParseInt(s, 10, 64)\<close>: an optional sign, then at least one decimal digit and
  nothing else, the value within the range of \<open>int64\<close>.  \<open>None\<close> stands for a non-nil
  error; the caller does not look at which one (syntax or range) it is.
\<close>

definition strconv_ParseInt :: "string \<Rightarrow> 64 word option" where
  "strconv_ParseInt s =
     (if s = [] then None
      else
        let (neg, s') = (if hd s = CHR ''+'' then (False, tl s)
                         else if hd s = CHR ''-'' then (True, tl s)
                         else (False, s))
        in if s' = [] then None
           else (case parse_digits 0 s' of
                   None \<Rightarrow> None
                 | Some un \<Rightarrow>
                     if \<not> neg \<and> un \<ge> 2 ^ 63 then None
                     else if neg \<and> un > 2 ^ 63 then None
                     else Some (if neg then - of_nat un else of_nat un)))"

text \<open>\<open>hmac.New(sha256.New, key)\<close>, \<open>Write\<close> and \<open>Sum\<close> (RFC 2104, block size 64).\<close>

definition hmac_sha256 :: "bytes \<Rightarrow> bytes \<Rightarrow> bytes" where
  "hmac_sha256 key msg =
     (let key' = (if length key > 64 then sha256 key else key);
          padded = key' @ replicate (64 - length key') 0;
          ipad = map (\<lambda>b. b XOR 0x36) padded;
          opad = map (\<lambda>b. b XOR 0x5c) padded
      in sha256 (opad @ sha256 (ipad @ msg)))"

text \<open>\<open>subtle.ConstantTimeCompare\<close>: 1 for equal lengths and contents, else 0.\<close>

definition ConstantTimeCompare :: "bytes \<Rightarrow> bytes \<Rightarrow> int" where
  "ConstantTimeCompare x y =
     (if length x \<noteq> length y then 0
      else let v = foldl (\<lambda>v (a, b). v OR (a XOR b)) (0 :: byte) (zip x y)
           in if v = 0 then 1 else 0)"

text \<open>
  \<open>float64(x)\<close> for an integer \<open>x\<close>: the nearest double, ties to even.  Every such
  double is itself an integer, so the value is kept as an \<open>int\<close>; integers of at most
  53 bits are exact.
\<close>

definition round53 :: "int \<Rightarrow> int" where
  "round53 a =
     (let n = bitlen a in
      if n \<le> 53 then a
      else let e = nat (n - 53);
               q = a div 2 ^ e;
               r = a mod 2 ^ e;
               h = 2 ^ (e - 1)
           in (if r > h \<or> (r = h \<and> odd q) then q + 1 else q) * 2 ^ e)"

definition float64_of_int :: "int \<Rightarrow> int" where
  "float64_of_int x = (if x < 0 then - round53 (- x) else round53 x)"

definition math_Abs :: "int \<Rightarrow> int" where
  "math_Abs f = \<bar>f\<bar>"

text \<open>The verb \<open>%.0f\<close> applied to a non-negative double of integral value.\<close>

definition fmt_f0 :: "int \<Rightarrow> string" where
  "fmt_f0 f = fmt_nat (nat f)"

section \<open>Webhook authentication\<close>

record AuthenticationError =
  Message :: string

text \<open>
  \<open>Headers\<close> is \<open>map[string]string\<close>; indexing a missing key yields the empty string.
\<close>

type_synonym Headers = "string \<rightharpoonup> string"

definition hget :: "Headers \<Rightarrow> string \<Rightarrow> string" where
  "hget headers k = (case headers k of None \<Rightarrow> [] | Some v \<Rightarrow> v)"

text \<open>
  \<open>VerifySignature\<close>; \<open>now\<close> is the value of \<open>time.Now().Unix()\<close>, and \<open>None\<close> is the
  \<open>nil\<close> error.  The subtraction \<open>now - requestTime\<close> is on \<open>int64\<close> and wraps.
\<close>

definition VerifySignature :: "string \<Rightarrow> bytes \<Rightarrow> Headers \<Rightarrow> 64 word \<Rightarrow> AuthenticationError option" where
  "VerifySignature secret body headers now =
     (if secret = [] then Some \<lparr>Message = ''webhook secret not configured''\<rparr>
      else
        let signature = hget headers ''X-Kiket-Signature'';
            signature = (if signature = [] then hget headers ''x-kiket-signature'' else signature)
        in
        if signature = [] then Some \<lparr>Message = ''missing X-Kiket-Signature header''\<rparr>
        else
          let timestamp = hget headers ''X-Kiket-Timestamp'';
              timestamp = (if timestamp = [] then hget headers ''x-kiket-timestamp'' else timestamp)
          in
          if timestamp = [] then Some \<lparr>Message = ''missing X-Kiket-Timestamp header''\<rparr>
          else
            (case strconv_ParseInt timestamp of
               None \<Rightarrow> Some \<lparr>Message = ''invalid X-Kiket-Timestamp header''\<rparr>
             | Some requestTime \<Rightarrow>
                 let timeDiff = math_Abs (float64_of_int (sint (now - requestTime)))
                 in
                 if timeDiff > 300
                 then Some \<lparr>Message = ''request timestamp too old or too far in future: ''
                                       @ fmt_f0 timeDiff @ ''s''\<rparr>
                 else
                   let payload = timestamp @ ''.'' @ string_of_bytes body;
                       expectedSignature =
                         hex_EncodeToString
                           (hmac_sha256 (bytes_of_string secret) (bytes_of_string payload))
                   in
                   if ConstantTimeCompare (bytes_of_string signature)
                        (bytes_of_string expectedSignature) \<noteq> 1
                   then Some \<lparr>Message = ''invalid signature''\<rparr>
                   else None))"

text \<open>
  \<open>GenerateSignature\<close>; the optional \<open>timestamp\<close> pointer is an \<open>option\<close>, and \<open>now\<close> is
  the clock reading used when it is \<open>nil\<close>.
\<close>

definition GenerateSignature :: "string \<Rightarrow> string \<Rightarrow> 64 word option \<Rightarrow> 64 word \<Rightarrow> string \<times> string" where
  "GenerateSignature secret body timestamp now =
     (let tsVal = (case timestamp of Some t \<Rightarrow> t | None \<Rightarrow> now);
          tsStr = strconv_FormatInt tsVal;
          payload = tsStr @ ''.'' @ body;
          sig = hex_EncodeToString
                  (hmac_sha256 (bytes_of_string secret) (bytes_of_string payload))
      in (sig, tsStr))"

section \<open>Specification-side notions\<close>

text \<open>
  The combine rule in the words of the specification: the two operands in ascending
  order of their raw bytes, concatenated, then SHA-256.
\<close>

definition sorted_pair :: "bytes \<Rightarrow> bytes \<Rightarrow> bytes" where
  "sorted_pair a b = min a b @ max a b"

definition sorted_pair_sha256 :: "bytes \<Rightarrow> bytes \<Rightarrow> bytes" where
  "sorted_pair_sha256 a b = sha256 (sorted_pair a b)"

text \<open>
  A hash value in the words of the specification: \<open>0x\<close> followed by 64 lowercase hex
  characters, 66 characters in all.
\<close>

definition lower_hex_char :: "char \<Rightarrow> bool" where
  "lower_hex_char c \<longleftrightarrow> c \<in> set hextable"

definition is_hash :: "string \<Rightarrow> bool" where
  "is_hash s \<longleftrightarrow>
     length s = 66 \<and> take 2 s = ''0x'' \<and> list_all lower_hex_char (drop 2 s)"


text \<open>
  The authenticator in the words of the specification: six checks, evaluated in order,
  the first failing one deciding the outcome; and the four kinds of failure.
\<close>

datatype check =
  SecretConfigured | SignaturePresent | TimestampPresent | TimestampParses | Fresh | SignatureMatches

datatype failure_kind = ConfigurationError | ProtocolError | FreshnessError | IntegrityError

text \<open>A header under its canonical name or, failing that, its all-lowercase name.\<close>

definition header_lookup :: "Headers \<Rightarrow> string \<Rightarrow> string \<Rightarrow> string" where
  "header_lookup headers canonical lower =
     (if hget headers canonical = [] then hget headers lower else hget headers canonical)"

definition received_signature :: "Headers \<Rightarrow> string" where
  "received_signature headers = header_lookup headers ''X-Kiket-Signature'' ''x-kiket-signature''"

definition received_timestamp :: "Headers \<Rightarrow> string" where
  "received_timestamp headers = header_lookup headers ''X-Kiket-Timestamp'' ''x-kiket-timestamp''"

definition expected_signature :: "string \<Rightarrow> string \<Rightarrow> bytes \<Rightarrow> string" where
  "expected_signature secret timestamp body =
     hex_EncodeToString
       (hmac_sha256 (bytes_of_string secret)
          (bytes_of_string (timestamp @ ''.'') @ body))"

fun first_failing :: "(check \<times> bool) list \<Rightarrow> check option" where
  "first_failing [] = None"
| "first_failing ((c, failed) # rest) = (if failed then Some c else first_failing rest)"

definition spec_outcome :: "string \<Rightarrow> bytes \<Rightarrow> Headers \<Rightarrow> 64 word \<Rightarrow> check option" where
  "spec_outcome secret body headers now =
     first_failing
       [(SecretConfigured, secret = []),
        (SignaturePresent, received_signature headers = []),
        (TimestampPresent, received_timestamp headers = []),
        (TimestampParses, strconv_ParseInt (received_timestamp headers) = None),
        (Fresh, case strconv_ParseInt (received_timestamp headers) of
                  None \<Rightarrow> False
                | Some t \<Rightarrow> 300 < \<bar>sint now - sint t\<bar>),
        (SignatureMatches,
           received_signature headers
             \<noteq> expected_signature secret (received_timestamp headers) body)]"

text \<open>
  The readings of the wall clock for which no difference to an \<open>int64\<close> timestamp can
  wrap around into the window: all but the last 300 seconds at either end of \<open>int64\<close>.
\<close>

definition clock_in_range :: "64 word \<Rightarrow> bool" where
  "clock_in_range now = (- (2 ^ 63) + 300 \<le> sint now \<and> sint now \<le> 2 ^ 63 - 301)"

definition freshness_message :: "int \<Rightarrow> string" where
  "freshness_message timeDiff =
     ''request timestamp too old or too far in future: '' @ fmt_f0 timeDiff @ ''s''"

definition message_of_check :: "check \<Rightarrow> int \<Rightarrow> string" where
  "message_of_check c timeDiff =
     (case c of
        SecretConfigured \<Rightarrow> ''webhook secret not configured''
      | SignaturePresent \<Rightarrow> ''missing X-Kiket-Signature header''
      | TimestampPresent \<Rightarrow> ''missing X-Kiket-Timestamp header''
      | TimestampParses \<Rightarrow> ''invalid X-Kiket-Timestamp header''
      | Fresh \<Rightarrow> freshness_message timeDiff
      | SignatureMatches \<Rightarrow> ''invalid signature'')"

text \<open>The value of \<open>timeDiff\<close> in \<open>VerifySignature\<close>, when the timestamp parses.\<close>

definition code_timeDiff :: "Headers \<Rightarrow> 64 word \<Rightarrow> int" where
  "code_timeDiff headers now =
     (case strconv_ParseInt (received_timestamp headers) of
        None \<Rightarrow> 0
      | Some t \<Rightarrow> math_Abs (float64_of_int (sint (now - t))))"

text \<open>
  The kind of a failure, which a caller can only read off the message: the error type
  has no other field.
\<close>

definition kind_of_check :: "check \<Rightarrow> failure_kind" where
  "kind_of_check c =
     (case c of
        SecretConfigured \<Rightarrow> ConfigurationError
      | SignaturePresent \<Rightarrow> ProtocolError
      | TimestampPresent \<Rightarrow> ProtocolError
      | TimestampParses \<Rightarrow> ProtocolError
      | Fresh \<Rightarrow> FreshnessError
      | SignatureMatches \<Rightarrow> IntegrityError)"

definition kind_of_message :: "string \<Rightarrow> failure_kind option" where
  "kind_of_message m =
     (if m = ''webhook secret not configured'' then Some ConfigurationError
      else if m = ''missing X-Kiket-Signature header'' then Some ProtocolError
      else if m = ''missing X-Kiket-Timestamp header'' then Some ProtocolError
      else if m = ''invalid X-Kiket-Timestamp header'' then Some ProtocolError
      else if m = ''invalid signature'' then Some IntegrityError
      else if take 48 m = ''request timestamp too old or too far in future: ''
        then Some FreshnessError
      else None)"

text \<open>ASCII lower-casing, for comparing header names without regard to case.\<close>

definition ascii_lower :: "char \<Rightarrow> char" where
  "ascii_lower c =
     (let n = (of_char c :: nat) in if 65 \<le> n \<and> n \<le> 90 then char_of (n + 32) else c)"

section \<open>Properties of the byte comparison and of the hex codec\<close>

lemma bytes_Compare_pos_iff: "bytes_Compare a b > 0 \<longleftrightarrow> b < a"
  by (induction a b rule: bytes_Compare.induct) auto

lemma bytes_Compare_flip:
  "bytes_Compare a b > 0 \<Longrightarrow> \<not> bytes_Compare b a > 0"
  by (simp add: bytes_Compare_pos_iff)

lemma bytes_Compare_total:
  "\<not> bytes_Compare a b > 0 \<Longrightarrow> \<not> bytes_Compare b a > 0 \<Longrightarrow> a = b"
  by (simp add: bytes_Compare_pos_iff)

lemma hashPair_commute: "hashPair a b = hashPair b a"
proof (cases "bytes_Compare a b > 0")
  case True
  then show ?thesis using bytes_Compare_flip [OF True] by (simp add: hashPair_def)
next
  case False
  show ?thesis
  proof (cases "bytes_Compare b a > 0")
    case True
    then show ?thesis using False by (simp add: hashPair_def)
  next
    case nb: False
    have "a = b" using False nb by (rule bytes_Compare_total)
    then show ?thesis by simp
  qed
qed

lemma hashPair_min_max: "hashPair a b = sha256 (min a b @ max a b)"
  by (auto simp: hashPair_def bytes_Compare_pos_iff min_def max_def)

lemma proof_loop_index_irrelevant:
  "proof_loop cur i path = proof_loop cur j path"
proof (induction path arbitrary: cur i j)
  case Nil
  show ?case by simp
next
  case (Cons s rest)
  have step: "(if i smod 2 = 0 then hashPair cur (normalizeHash s)
               else hashPair (normalizeHash s) cur) = hashPair cur (normalizeHash s)" for i :: int
    using hashPair_commute [of "normalizeHash s" cur] by simp
  show ?case
    using Cons.IH [of "hashPair cur (normalizeHash s)" "i sdiv 2" "j sdiv 2"]
    by (simp add: step Let_def)
qed

lemma nibble_cases:
  fixes d :: nat
  assumes "d < 16"
  shows "d \<in> {15, 14, 13, 12, 11, 10, 9, 8} \<or> d \<in> {7, 6, 5, 4, 3, 2, 1, 0}"
  using assms by (simp; arith)

lemma fromHexChar_hextable: "n < 16 \<Longrightarrow> fromHexChar (hextable ! n) = Some (of_nat n)"
  using nibble_cases [of n] by (auto simp: hextable_def fromHexChar_def)

lemma nibble_join: "push_bit 4 (drop_bit 4 b) OR (b AND 0x0f) = (b :: byte)"
proof -
  have m: "(0x0f :: byte) = mask 4" by (simp add: mask_eq_exp_minus_1)
  show ?thesis unfolding m
    by (rule bit_word_eqI) (auto simp: bit_simps)
qed

lemma hi_nibble_lt: "unat (drop_bit 4 (b :: byte)) < 16"
proof -
  have "unat b < 256" using unsigned_less [of b] by simp
  moreover have "unat (drop_bit 4 b) = drop_bit 4 (unat b)"
    by (simp only: unat_drop_bit_eq)
  ultimately show ?thesis by (simp add: drop_bit_eq_div)
qed

lemma lo_nibble_lt: "unat ((b :: byte) AND 0x0f) < 16"
proof -
  have m: "(0x0f :: byte) = mask 4" by (simp add: mask_eq_exp_minus_1)
  have "unat (take_bit 4 b) < 2 ^ 4"
    unfolding unsigned_take_bit_eq by (rule take_bit_nat_less_exp)
  then show ?thesis unfolding m by (simp add: take_bit_eq_mask)
qed

lemma hex_Decode_Encode: "hex_DecodeString (hex_EncodeToString bs) = (bs, False)"
proof (induction bs)
  case Nil
  show ?case by (simp add: hex_EncodeToString_def)
next
  case (Cons b bs)
  have ih: "hex_DecodeString (hex_EncodeToString bs) = (bs, False)" by (rule Cons.IH)
  have e: "hex_EncodeToString (b # bs) =
        hextable ! unat (drop_bit 4 b) # hextable ! unat (b AND 0x0f) # hex_EncodeToString bs"
    by (simp add: hex_EncodeToString_def)
  show ?case
    unfolding e
    by (simp add: fromHexChar_hextable [OF hi_nibble_lt] fromHexChar_hextable [OF lo_nibble_lt]
        ih nibble_join)
qed

lemma normalizeHash_0x_hex: "normalizeHash (''0x'' @ hex_EncodeToString bs) = bs"
  by (simp add: normalizeHash_def hex_Decode_Encode)

lemma hex_Encode_length: "length (hex_EncodeToString bs) = 2 * length bs"
  by (induction bs) (simp_all add: hex_EncodeToString_def)

lemma lower_hex_char_nth:
  assumes "lower_hex_char c"
  shows "\<exists>n<16. c = hextable ! n"
proof -
  have l: "length hextable = 16" by (simp add: hextable_def)
  from assms obtain n where "n < length hextable" "hextable ! n = c"
    unfolding lower_hex_char_def in_set_conv_nth by blast
  then show ?thesis unfolding l by blast
qed

lemma nibble_split:
  fixes m n :: nat
  assumes "m < 16" "n < 16"
  shows "unat (drop_bit 4 (push_bit 4 (of_nat m) OR of_nat n :: byte)) = m"
    and "unat ((push_bit 4 (of_nat m) OR of_nat n :: byte) AND 0x0f) = n"
proof -
  have m: "(0x0f :: byte) = mask 4" by (simp add: mask_eq_exp_minus_1)
  have tm: "(of_nat m :: byte) = take_bit 4 (of_nat m)"
    and tn: "(of_nat n :: byte) = take_bit 4 (of_nat n)"
    using assms by (simp_all add: take_bit_of_nat take_bit_nat_eq_self)
  have um: "unat (of_nat m :: byte) = m" and un: "unat (of_nat n :: byte) = n"
    using assms by (simp_all add: unsigned_of_nat take_bit_nat_eq_self)
  have "drop_bit 4 (push_bit 4 (take_bit 4 (of_nat m)) OR take_bit 4 (of_nat n) :: byte)
          = take_bit 4 (of_nat m)"
    by (rule bit_word_eqI) (auto simp: bit_simps)
  then show "unat (drop_bit 4 (push_bit 4 (of_nat m) OR of_nat n :: byte)) = m"
    using tm tn um by metis
  have "(push_bit 4 (take_bit 4 (of_nat m)) OR take_bit 4 (of_nat n) :: byte) AND mask 4
          = take_bit 4 (of_nat n)"
    by (rule bit_word_eqI) (auto simp: bit_simps)
  then show "unat ((push_bit 4 (of_nat m) OR of_nat n :: byte) AND 0x0f) = n"
    unfolding m using tm tn un by metis
qed

lemma hex_Encode_Decode:
  "list_all lower_hex_char s \<Longrightarrow> even (length s)
     \<Longrightarrow> hex_EncodeToString (fst (hex_DecodeString s)) = s"
proof (induction s rule: hex_DecodeString.induct)
  case 1
  show ?case by (simp add: hex_EncodeToString_def)
next
  case (2 p)
  then show ?case by simp
next
  case (3 p q rest)
  from 3(2) obtain m where m: "m < 16" "p = hextable ! m"
    using lower_hex_char_nth [of p] by auto
  from 3(2) obtain n where n: "n < 16" "q = hextable ! n"
    using lower_hex_char_nth [of q] by auto
  have ih: "hex_EncodeToString (fst (hex_DecodeString rest)) = rest"
    using 3 m n by (simp add: fromHexChar_hextable)
  have e: "hex_EncodeToString (b # bs) =
        hextable ! unat (drop_bit 4 b) # hextable ! unat (b AND 0x0f) # hex_EncodeToString bs"
    for b bs
    by (simp add: hex_EncodeToString_def)
  have d: "hex_DecodeString (p # q # rest)
        = ((push_bit 4 (of_nat m) OR of_nat n) # fst (hex_DecodeString rest),
           snd (hex_DecodeString rest))"
    by (simp add: m n fromHexChar_hextable Let_def)
  show ?case
    by (simp only: d fst_conv e nibble_split [OF m(1) n(1)] ih) (simp only: m(2) n(2))
qed

lemma is_hash_normalize:
  assumes "is_hash s"
  shows "''0x'' @ hex_EncodeToString (normalizeHash s) = s"
proof -
  have s: "s = ''0x'' @ drop 2 s" using assms
    by (metis append_take_drop_id is_hash_def)
  have "hex_EncodeToString (fst (hex_DecodeString (drop 2 s))) = drop 2 s"
    using assms by (intro hex_Encode_Decode) (simp_all add: is_hash_def)
  moreover have "normalizeHash s = fst (hex_DecodeString (drop 2 s))"
    using assms by (simp add: normalizeHash_def is_hash_def)
  ultimately show ?thesis using s by simp
qed

lemma normalizeHash_inj:
  assumes "is_hash s" "is_hash t" "normalizeHash s = normalizeHash t"
  shows "s = t"
  using is_hash_normalize [OF assms(1)] is_hash_normalize [OF assms(2)] assms(3) by simp




section \<open>SHA-256 on two concrete messages\<close>
















section \<open>Merkle proof verification: the claims\<close>

text \<open>
  C1.  \<open>hashPair\<close> hashes the smaller operand followed by the larger one (raw byte
  order), so it is commutative, and \<open>VerifyProofLocally\<close> returns the same result for any
  two leaf indices: the parity of the index has no effect.
\<close>

theorem C1_leaf_index_has_no_effect:
  "hashPair a b = sorted_pair_sha256 a b
   \<and> hashPair a b = hashPair b a
   \<and> VerifyProofLocally contentHash proofPath i merkleRoot
       = VerifyProofLocally contentHash proofPath j merkleRoot"
proof -
  have "proof_loop (normalizeHash contentHash) i proofPath
          = proof_loop (normalizeHash contentHash) j proofPath"
    by (rule proof_loop_index_irrelevant)
  then show ?thesis
    using hashPair_commute [of a b] hashPair_min_max [of a b]
    by (simp add: VerifyProofLocally_def sorted_pair_sha256_def sorted_pair_def)
qed

text \<open>
  C6.  With an empty proof, \<open>VerifyProofLocally h [] i h\<close> is true for every \<open>h\<close>; and when
  \<open>h\<close> and \<open>r\<close> are hash values (\<open>0x\<close> and 64 lowercase hex characters) and \<open>r\<close> differs
  from \<open>h\<close>, \<open>VerifyProofLocally h [] i r\<close> is false: two different hash values decode to
  different bytes.  This holds for every leaf index \<open>i\<close>, in particular for \<open>0\<close>.
\<close>

theorem C6_single_leaf_tree:
  "VerifyProofLocally h [] i h
   \<and> (is_hash h \<and> is_hash r \<and> r \<noteq> h \<longrightarrow> \<not> VerifyProofLocally h [] i r)"
proof -
  have "r = h" if "is_hash h" "is_hash r" "VerifyProofLocally h [] i r"
    using that normalizeHash_inj [of r h]
    by (simp add: VerifyProofLocally_def bytes_Equal_def)
  then show ?thesis
    by (auto simp: VerifyProofLocally_def bytes_Equal_def)
qed

text \<open>
  The theorem at a hash value and at a root that differs from it in the last character.
\<close>

theorem C6_single_leaf_tree_witness:
  "is_hash ''0xabababababababababababababababababababababababababababababababab''
   \<and> is_hash ''0xabababababababababababababababababababababababababababababababac''
   \<and> VerifyProofLocally ''0xabababababababababababababababababababababababababababababababab'' [] 0
        ''0xabababababababababababababababababababababababababababababababab''
   \<and> \<not> VerifyProofLocally ''0xabababababababababababababababababababababababababababababababab'' [] 0
        ''0xabababababababababababababababababababababababababababababababac''"
  using C6_single_leaf_tree [of "''0xabababababababababababababababababababababababababababababababab''" 0
      "''0xabababababababababababababababababababababababababababababababac''"]
  by (simp add: is_hash_def lower_hex_char_def hextable_def)



text \<open>
  C10.  \<open>VerifyProofLocally\<close> has no error result, and \<open>normalizeHash\<close> drops the error
  of the decoder.  A string whose first byte is not a hex digit makes the decoder fail
  and decodes to the empty byte string; and whenever the content hash and the root both
  decode to the empty byte string, \<open>VerifyProofLocally\<close> with an empty proof returns true,
  for every leaf index.
\<close>

theorem C10_malformed_input_accepted:
  "(fromHexChar c = None \<longrightarrow>
      snd (hex_DecodeString (c # s)) \<and> normalizeHash (c # s) = [])
   \<and> (normalizeHash contentHash = [] \<and> normalizeHash merkleRoot = [] \<longrightarrow>
      VerifyProofLocally contentHash [] i merkleRoot)"
proof -
  have d: "hex_DecodeString (c # s) = ([], True)" if "fromHexChar c = None"
    using that by (cases s) simp_all
  have z: "c \<noteq> CHR ''0''" if "fromHexChar c = None"
    using that by (auto simp: fromHexChar_def)
  have n: "normalizeHash (c # s) = []" if "fromHexChar c = None"
    using d [OF that] z [OF that] by (cases s) (simp_all add: normalizeHash_def)
  show ?thesis
    using d n by (simp add: VerifyProofLocally_def bytes_Equal_def)
qed

theorem C10_malformed_input_accepted_witness:
  "fromHexChar CHR ''z'' = None
   \<and> snd (hex_DecodeString ''zz'') \<and> normalizeHash ''zz'' = []
   \<and> normalizeHash ''not hex'' = []
   \<and> VerifyProofLocally ''zz'' [] 7 ''not hex''"
proof -
  have f: "fromHexChar CHR ''z'' = None" by (simp add: fromHexChar_def)
  have b: "normalizeHash ''not hex'' = []"
    by (simp add: normalizeHash_def fromHexChar_def)
  show ?thesis
    using C10_malformed_input_accepted [of "CHR ''z''" "''z''" "''zz''" "''not hex''" 7] f b
    by simp
qed

section \<open>Content hash: the claim\<close>

lemma sort_keys_cong:
  assumes "distinct (xs :: string list)" "distinct ys" "set xs = set ys"
  shows "sort xs = sort ys"
  by (rule sorted_distinct_set_unique) (use assms in simp_all)

text \<open>
  C8.  A mapping presented with the same key-value pairs in two different orders (keys
  distinct, as in every map) has one content hash, whatever the encoders of keys and
  values are: the keys are sorted before the canonical serialization is hashed.
\<close>

theorem C8_key_order_invariance:
  assumes "distinct (map fst ps)" and "distinct (map fst qs)" and "set qs = set ps"
  shows "ComputeContentHash enc_key enc_val qs = ComputeContentHash enc_key enc_val ps"
proof -
  have "set (map fst qs) = set (map fst ps)" using assms(3) by simp
  then have k: "sort (map fst qs) = sort (map fst ps)"
    using assms(1,2) by (intro sort_keys_cong)
  have m: "map_of qs = map_of ps" using assms by (simp add: map_of_inject_set)
  show ?thesis by (simp add: ComputeContentHash_def k m)
qed

theorem C8_key_order_invariance_witness:
  "distinct (map fst [(''a'', [1 :: byte]), (''b'', [2])])
   \<and> distinct (map fst [(''b'', [2 :: byte]), (''a'', [1])])
   \<and> set [(''b'', [2 :: byte]), (''a'', [1])] = set [(''a'', [1]), (''b'', [2])]
   \<and> ComputeContentHash bytes_of_string Some [(''b'', [2 :: byte]), (''a'', [1])]
       = ComputeContentHash bytes_of_string Some [(''a'', [1]), (''b'', [2])]"
proof -
  have d: "distinct (map fst [(''a'', [1 :: byte]), (''b'', [2])])"
    and d': "distinct (map fst [(''b'', [2 :: byte]), (''a'', [1])])" by simp_all
  have m: "set [(''b'', [2 :: byte]), (''a'', [1])] = set [(''a'', [1]), (''b'', [2])]"
    by auto
  show ?thesis
    using C8_key_order_invariance [OF d d' m, of bytes_of_string Some] d d' m by simp
qed

section \<open>Properties of the library functions used by the authenticator\<close>

lemma byte_xor_eq_0: "(a :: byte) XOR b = 0 \<Longrightarrow> a = b"
proof -
  assume z: "a XOR b = 0"
  have "a = (a XOR b) XOR b" by (simp add: xor.assoc)
  then show "a = b" by (simp add: z)
qed

lemma ctc_fold:
  "length x = length y \<Longrightarrow>
   foldl (\<lambda>v (a, b). v OR (a XOR b)) (v0 :: byte) (zip x y) = 0 \<longleftrightarrow> v0 = 0 \<and> x = y"
proof (induction x arbitrary: y v0)
  case Nil
  then show ?case by simp
next
  case (Cons a x)
  then obtain b y' where y: "y = b # y'" by (cases y) auto
  with Cons.prems have l: "length x = length y'" by simp
  show ?case
    unfolding y using Cons.IH [OF l, of "v0 OR (a XOR b)"]
    by (auto simp: or_eq_0_iff dest: byte_xor_eq_0)
qed

lemma ConstantTimeCompare_iff: "ConstantTimeCompare x y = 1 \<longleftrightarrow> x = y"
  using ctc_fold [of x y 0] by (auto simp: ConstantTimeCompare_def Let_def)

lemma byte_of_char_of_byte: "byte_of_char (char_of_byte b) = b"
proof -
  have "unat b < 256" using unsigned_less [of b] by simp
  then show ?thesis by (simp add: byte_of_char_def char_of_byte_def)
qed

lemma bytes_of_string_of_bytes: "bytes_of_string (string_of_bytes bs) = bs"
  by (simp add: bytes_of_string_def string_of_bytes_def byte_of_char_of_byte map_idI)

lemma of_char_digit_char: "d < 10 \<Longrightarrow> (of_char (digit_char d) :: nat) = 48 + d"
  by (simp add: digit_char_def)

lemma digit_val_digit_char: "d < 10 \<Longrightarrow> digit_val (digit_char d) = Some d"
  by (simp add: digit_val_def of_char_digit_char)

lemma digit_char_not_sign:
  "d < 10 \<Longrightarrow> digit_char d \<noteq> CHR ''+'' \<and> digit_char d \<noteq> CHR ''-''"
proof -
  assume d: "d < 10"
  have "(of_char (digit_char d) :: nat) \<noteq> of_char CHR ''+''"
    and "(of_char (digit_char d) :: nat) \<noteq> of_char CHR ''-''"
    using d by (simp_all add: of_char_digit_char)
  then show ?thesis by auto
qed

lemma fmt_nat_nonempty: "fmt_nat n \<noteq> []"
  by (subst fmt_nat.simps) simp

lemma fmt_nat_hd: "\<exists>d<10. hd (fmt_nat n) = digit_char d"
proof (induction n rule: fmt_nat.induct)
  case (1 n)
  show ?case
  proof (cases "n < 10")
    case True
    then show ?thesis by (subst fmt_nat.simps) auto
  next
    case False
    then have "hd (fmt_nat n) = hd (fmt_nat (n div 10))"
      by (subst fmt_nat.simps) (simp add: fmt_nat_nonempty)
    then show ?thesis using 1 [OF False] by simp
  qed
qed

lemma parse_digits_snoc:
  "d < 10 \<Longrightarrow> parse_digits acc (xs @ [digit_char d])
     = map_option (\<lambda>v. v * 10 + d) (parse_digits acc xs)"
  by (induction xs arbitrary: acc) (auto simp: digit_val_digit_char split: option.splits)

lemma parse_digits_fmt_nat: "parse_digits 0 (fmt_nat n) = Some n"
proof (induction n rule: fmt_nat.induct)
  case (1 n)
  show ?case
  proof (cases "n < 10")
    case True
    then show ?thesis by (subst fmt_nat.simps) (simp add: digit_val_digit_char)
  next
    case False
    have m: "n mod 10 < 10" by simp
    show ?thesis
      using False 1 [OF False]
      by (subst fmt_nat.simps) (simp add: parse_digits_snoc [OF m])
  qed
qed

lemma sint64_bounds: "- (2 ^ 63) \<le> sint (t :: 64 word) \<and> sint t < 2 ^ 63"
  using sint_ge [of t] sint_lt [of t] by simp

lemma ParseInt_FormatInt: "strconv_ParseInt (strconv_FormatInt t) = Some t"
proof (cases "sint t < 0")
  case True
  let ?n = "nat (- sint t)"
  have b: "?n \<le> 2 ^ 63" using sint64_bounds [of t] by (simp add: nat_le_iff)
  have v: "- (of_nat ?n :: 64 word) = t"
  proof -
    have "(of_nat ?n :: 64 word) = of_int (- sint t)" using True by simp
    then show ?thesis by simp
  qed
  show ?thesis
    using True b v
    by (simp add: strconv_ParseInt_def strconv_FormatInt_def fmt_nat_nonempty
        parse_digits_fmt_nat)
next
  case False
  let ?n = "nat (sint t)"
  obtain d where d: "d < 10" "hd (fmt_nat ?n) = digit_char d" using fmt_nat_hd by blast
  have h: "hd (fmt_nat ?n) \<noteq> CHR ''+''" "hd (fmt_nat ?n) \<noteq> CHR ''-''"
    using digit_char_not_sign [OF d(1)] d(2) by simp_all
  have b: "?n < 2 ^ 63" using sint64_bounds [of t] False by (simp add: nat_less_iff)
  have v: "(of_nat ?n :: 64 word) = t"
  proof -
    have "(of_nat ?n :: 64 word) = of_int (sint t)" using False by simp
    then show ?thesis by simp
  qed
  show ?thesis
    using False b v h
    by (simp add: strconv_ParseInt_def strconv_FormatInt_def fmt_nat_nonempty
        parse_digits_fmt_nat)
qed

lemma FormatInt_nonempty: "strconv_FormatInt t \<noteq> []"
  by (simp add: strconv_FormatInt_def fmt_nat_nonempty)

lemma round53_nonneg: "0 \<le> a \<Longrightarrow> 0 \<le> round53 a"
  by (auto simp: round53_def Let_def pos_imp_zdiv_nonneg_iff)

lemma round53_large:
  assumes n: "53 < bitlen a"
  shows "2 ^ 52 \<le> round53 a"
proof -
  define e where "e = nat (bitlen a - 53)"
  define q where "q = a div 2 ^ e"
  have pos: "0 < a" using n bitlen_eq_zero_iff [of a] by (cases "0 < a") auto
  have "nat (bitlen a - 1) = 52 + e" using n by (simp add: e_def)
  then have lo: "2 ^ 52 * 2 ^ e \<le> a"
    using bitlen_bounds [OF pos] by (simp add: power_add)
  have "(2 ^ 52 * 2 ^ e) div 2 ^ e \<le> a div (2 ^ e :: int)"
    by (rule zdiv_mono1 [OF lo]) simp
  then have q: "2 ^ 52 \<le> q" by (simp add: q_def)
  have one: "(1 :: int) \<le> 2 ^ e" by simp
  have r: "round53 a = (if a mod 2 ^ e > 2 ^ (e - 1) \<or> (a mod 2 ^ e = 2 ^ (e - 1) \<and> odd q)
                        then q + 1 else q) * 2 ^ e"
    using n by (simp add: round53_def Let_def e_def q_def)
  have "2 ^ 52 * 1 \<le> (if a mod 2 ^ e > 2 ^ (e - 1) \<or> (a mod 2 ^ e = 2 ^ (e - 1) \<and> odd q)
                        then q + 1 else q) * 2 ^ e"
    by (rule mult_mono) (use q one in auto)
  then show ?thesis by (simp add: r)
qed

lemma round53_gt_300: "(300 < round53 a) = (300 < a)"
proof (cases "bitlen a \<le> 53")
  case True
  then show ?thesis by (simp add: round53_def)
next
  case False
  then have n: "53 < bitlen a" by simp
  have pos: "0 < a" using n bitlen_eq_zero_iff [of a] by (cases "0 < a") auto
  have "2 ^ nat (bitlen a - 1) \<le> a" using bitlen_bounds [OF pos] by simp
  moreover have "(2 :: int) ^ 9 \<le> 2 ^ nat (bitlen a - 1)"
    by (rule power_increasing) (use n in auto)
  ultimately have "300 < a" by simp
  moreover have "300 < round53 a" using round53_large [OF n] by simp
  ultimately show ?thesis by simp
qed

lemma timeDiff_gt_300:
  "(300 < math_Abs (float64_of_int d)) = (300 < \<bar>d\<bar>)"
proof (cases "d < 0")
  case True
  then have "0 \<le> round53 (- d)" by (intro round53_nonneg) simp
  then show ?thesis using True round53_gt_300 [of "- d"]
    by (simp add: math_Abs_def float64_of_int_def)
next
  case False
  then have "0 \<le> round53 d" by (intro round53_nonneg) simp
  then show ?thesis using False round53_gt_300 [of d]
    by (simp add: math_Abs_def float64_of_int_def)
qed

lemma sint_diff_small:
  fixes a b :: "64 word"
  assumes "\<bar>sint a - sint b\<bar> \<le> 300"
  shows "sint (a - b) = sint a - sint b"
proof -
  have "signed_take_bit 63 (sint a - sint b) = sint a - sint b"
    by (rule signed_take_bit_int_eq_self) (use assms in auto)
  then show ?thesis by (simp add: sint_word_diff)
qed

lemma sint_diff_far:
  fixes a b :: "64 word"
  assumes far: "300 < \<bar>sint a - sint b\<bar>"
    and lo: "- (2 ^ 63) + 300 \<le> sint a" and hi: "sint a \<le> 2 ^ 63 - 301"
  shows "300 < \<bar>sint (a - b)\<bar>"
proof -
  let ?k = "sint a - sint b"
  have s: "sint (a - b) = signed_take_bit 63 ?k" by (simp add: sint_word_diff)
  consider "?k < - (2 ^ 63)" | "- (2 ^ 63) \<le> ?k \<and> ?k < 2 ^ 63" | "2 ^ 63 \<le> ?k" by linarith
  then show ?thesis
  proof cases
    case 1
    have "?k + 2 ^ Suc 63 \<le> signed_take_bit 63 ?k"
      using 1 by (intro signed_take_bit_int_greater_eq) simp
    moreover have "(2 :: int) ^ Suc 63 = 18446744073709551616" by simp
    ultimately have "300 < signed_take_bit 63 ?k"
      using lo sint64_bounds [of b] by (simp; linarith)
    then show ?thesis using s by simp
  next
    case 2
    then have "signed_take_bit 63 ?k = ?k" by (intro signed_take_bit_int_eq_self) auto
    then show ?thesis using s far by simp
  next
    case 3
    have "signed_take_bit 63 ?k \<le> ?k - 2 ^ Suc 63"
      using 3 by (intro signed_take_bit_int_less_eq) simp
    moreover have "(2 :: int) ^ Suc 63 = 18446744073709551616" by simp
    ultimately have "signed_take_bit 63 ?k < - 300"
      using hi sint64_bounds [of b] by (simp; linarith)
    then show ?thesis using s by simp
  qed
qed

lemma sha_digest_length: "length (sha_digest st) = 32"
  by (induction st rule: sha_digest.induct) (simp add: be_bytes32_def)

lemma sha256_length: "length (sha256 m) = 32"
  by (simp add: sha256_def sha_digest_length)

lemma hmac_hex_nonempty: "hex_EncodeToString (hmac_sha256 k m) \<noteq> []"
proof -
  have "length (hex_EncodeToString (hmac_sha256 k m)) = 64"
    by (simp add: hex_Encode_length hmac_sha256_def Let_def sha256_length)
  then show ?thesis by auto
qed

lemma char_of_byte_of_char: "char_of_byte (byte_of_char c) = c"
proof -
  have "(of_char c :: nat) mod 256 = of_char c" by (rule of_char_mod_256)
  then show ?thesis by (simp add: byte_of_char_def char_of_byte_def unat_of_nat)
qed

lemma bytes_of_string_inj: "bytes_of_string s = bytes_of_string t \<longleftrightarrow> s = t"
proof
  assume "bytes_of_string s = bytes_of_string t"
  then have "string_of_bytes (bytes_of_string s) = string_of_bytes (bytes_of_string t)" by simp
  then show "s = t"
    by (simp add: bytes_of_string_def string_of_bytes_def char_of_byte_of_char map_idI)
qed simp

lemma bytes_of_string_append:
  "bytes_of_string (s @ t) = bytes_of_string s @ bytes_of_string t"
  by (simp add: bytes_of_string_def)

lemma signature_check:
  "(ConstantTimeCompare (bytes_of_string sg)
      (bytes_of_string (hex_EncodeToString
         (hmac_sha256 (bytes_of_string secret)
            (bytes_of_string (ts @ ''.'' @ string_of_bytes body))))) \<noteq> 1)
   = (sg \<noteq> expected_signature secret ts body)"
proof -
  have "bytes_of_string (ts @ ''.'' @ string_of_bytes body) = bytes_of_string (ts @ ''.'') @ body"
    using bytes_of_string_append [of "ts @ ''.''" "string_of_bytes body"]
    by (simp add: bytes_of_string_of_bytes)
  then show ?thesis
    by (simp only: ConstantTimeCompare_iff bytes_of_string_inj expected_signature_def)
qed

lemma VerifySignature_unfold:
  "VerifySignature secret body headers now =
     (if secret = [] then Some \<lparr>Message = ''webhook secret not configured''\<rparr>
      else if received_signature headers = []
        then Some \<lparr>Message = ''missing X-Kiket-Signature header''\<rparr>
      else if received_timestamp headers = []
        then Some \<lparr>Message = ''missing X-Kiket-Timestamp header''\<rparr>
      else (case strconv_ParseInt (received_timestamp headers) of
              None \<Rightarrow> Some \<lparr>Message = ''invalid X-Kiket-Timestamp header''\<rparr>
            | Some t \<Rightarrow>
                if 300 < \<bar>sint (now - t)\<bar>
                then Some \<lparr>Message =
                       freshness_message (math_Abs (float64_of_int (sint (now - t))))\<rparr>
                else if received_signature headers
                          \<noteq> expected_signature secret (received_timestamp headers) body
                then Some \<lparr>Message = ''invalid signature''\<rparr>
                else None))"
proof -
  have sg: "(if hget headers ''X-Kiket-Signature'' = [] then hget headers ''x-kiket-signature''
             else hget headers ''X-Kiket-Signature'') = received_signature headers"
    by (simp only: received_signature_def header_lookup_def)
  have ts: "(if hget headers ''X-Kiket-Timestamp'' = [] then hget headers ''x-kiket-timestamp''
             else hget headers ''X-Kiket-Timestamp'') = received_timestamp headers"
    by (simp only: received_timestamp_def header_lookup_def)
  show ?thesis
    unfolding VerifySignature_def Let_def sg ts signature_check timeDiff_gt_300
      freshness_message_def
    by (rule refl)
qed

lemma fresh_iff:
  assumes "clock_in_range now"
  shows "(300 < \<bar>sint (now - t)\<bar>) = (300 < \<bar>sint now - sint t\<bar>)"
proof (cases "300 < \<bar>sint now - sint t\<bar>")
  case True
  then show ?thesis
    using sint_diff_far [of now t] assms by (simp add: clock_in_range_def)
next
  case False
  then have "\<bar>sint now - sint t\<bar> \<le> 300" by simp
  from sint_diff_small [OF this] False show ?thesis by simp
qed

lemma VerifySignature_refines:
  assumes "clock_in_range now"
  shows "VerifySignature secret body headers now =
     map_option (\<lambda>c. \<lparr>Message = message_of_check c (code_timeDiff headers now)\<rparr>)
       (spec_outcome secret body headers now)"
  unfolding VerifySignature_unfold spec_outcome_def
  by (simp add: fresh_iff [OF assms] message_of_check_def code_timeDiff_def
      split: option.splits)

lemma kind_of_message_of_check:
  "kind_of_message (message_of_check c d) = Some (kind_of_check c)"
  by (cases c) (simp_all add: kind_of_message_def message_of_check_def kind_of_check_def
      freshness_message_def)

lemmas eval_defs =
  strconv_ParseInt_def digit_val_def received_signature_def received_timestamp_def
  header_lookup_def hget_def clock_in_range_def char_of_def bit_Suc_0_iff

section \<open>Webhook authentication: the claims\<close>

text \<open>
  C5.  For a clock reading in range, \<open>VerifySignature\<close> returns what the six checks of
  the specification give when they are evaluated in their order and the first failing
  one decides: the message of that check, or \<open>nil\<close> (no payload) when none fails.  Check
  4 fails when the timestamp is not a signed decimal integer within \<open>int64\<close>.
\<close>

theorem C5_first_failing_check_decides:
  "clock_in_range now \<Longrightarrow>
   VerifySignature secret body headers now =
     map_option (\<lambda>c. \<lparr>Message = message_of_check c (code_timeDiff headers now)\<rparr>)
       (spec_outcome secret body headers now)"
  by (rule VerifySignature_refines)

theorem C5_first_failing_check_decides_witness:
  "clock_in_range 1700000000
   \<and> spec_outcome ''s3cr3t'' [] [''X-Kiket-Signature'' \<mapsto> ''ab''] 1700000000
       = Some TimestampPresent
   \<and> VerifySignature ''s3cr3t'' [] [''X-Kiket-Signature'' \<mapsto> ''ab''] 1700000000
       = Some \<lparr>Message = ''missing X-Kiket-Timestamp header''\<rparr>"
proof -
  have c: "clock_in_range 1700000000" by (simp add: clock_in_range_def)
  have o: "spec_outcome ''s3cr3t'' [] [''X-Kiket-Signature'' \<mapsto> ''ab''] 1700000000
       = Some TimestampPresent"
    by (simp add: spec_outcome_def eval_defs)
  show ?thesis
    using C5_first_failing_check_decides [OF c, of "''s3cr3t''" "[]"
        "[''X-Kiket-Signature'' \<mapsto> ''ab'']"] c o
    by (simp add: message_of_check_def)
qed

text \<open>
  C4, as the code has it.  A failure is an \<open>AuthenticationError\<close>, a record of one
  field, the message; success is \<open>nil\<close>.  For a clock reading in range the kind of the
  failing check (configuration, protocol, freshness, integrity) is the one that the
  message spells out, and nothing but the message tells the kinds apart.
\<close>

theorem C4_kind_read_off_message:
  "clock_in_range now \<Longrightarrow>
   map_option (\<lambda>e. kind_of_message (Message e)) (VerifySignature secret body headers now)
     = map_option (\<lambda>c. Some (kind_of_check c)) (spec_outcome secret body headers now)"
  by (simp add: VerifySignature_refines option.map_comp comp_def kind_of_message_of_check)

theorem C4_kind_read_off_message_witness:
  "clock_in_range 1700000000
   \<and> map_option (\<lambda>e. kind_of_message (Message e))
        (VerifySignature ''s3cr3t'' [] [''X-Kiket-Signature'' \<mapsto> ''ab''] 1700000000)
       = Some (Some ProtocolError)"
proof -
  have c: "clock_in_range 1700000000" by (simp add: clock_in_range_def)
  have o: "spec_outcome ''s3cr3t'' [] [''X-Kiket-Signature'' \<mapsto> ''ab''] 1700000000
       = Some TimestampPresent"
    by (simp add: spec_outcome_def eval_defs)
  show ?thesis
    using C4_kind_read_off_message [OF c, of "''s3cr3t''" "[]"
        "[''X-Kiket-Signature'' \<mapsto> ''ab'']"] c o
    by (simp add: kind_of_check_def)
qed

text \<open>
  C4 as stated fails: the error for an empty secret (a configuration error) and the
  error for a missing signature header (a protocol error) are values of one type that
  differ in the message only.
\<close>

theorem C4_counterexample:
  "VerifySignature [] [] Map.empty 0 = Some \<lparr>Message = ''webhook secret not configured''\<rparr>
   \<and> VerifySignature ''k'' [] Map.empty 0
       = Some \<lparr>Message = ''missing X-Kiket-Signature header''\<rparr>
   \<and> (the (VerifySignature [] [] Map.empty 0)) \<lparr>Message := []\<rparr>
       = (the (VerifySignature ''k'' [] Map.empty 0)) \<lparr>Message := []\<rparr>"
  by (simp add: VerifySignature_unfold eval_defs)

text \<open>
  C9, as the code has it.  The signature and the timestamp are looked up under exactly
  two spellings each, the canonical one first and then the all-lowercase one, an empty
  value counting as absent; the result depends on the headers through these lookups
  only.  With a configured secret, the missing-signature error is returned exactly when
  both spellings of the signature header are absent or empty, and the missing-timestamp
  error exactly when the signature is found and both spellings of the timestamp header
  are absent or empty.
\<close>

theorem C9_two_spellings:
  "VerifySignature secret body headers now =
     VerifySignature secret body
       [''X-Kiket-Signature'' \<mapsto> header_lookup headers ''X-Kiket-Signature'' ''x-kiket-signature'',
        ''X-Kiket-Timestamp'' \<mapsto> header_lookup headers ''X-Kiket-Timestamp'' ''x-kiket-timestamp'']
       now
   \<and> (secret \<noteq> [] \<longrightarrow>
        (VerifySignature secret body headers now
           = Some \<lparr>Message = ''missing X-Kiket-Signature header''\<rparr>)
        = (hget headers ''X-Kiket-Signature'' = [] \<and> hget headers ''x-kiket-signature'' = []))
   \<and> (secret \<noteq> [] \<longrightarrow>
        (VerifySignature secret body headers now
           = Some \<lparr>Message = ''missing X-Kiket-Timestamp header''\<rparr>)
        = (\<not> (hget headers ''X-Kiket-Signature'' = [] \<and> hget headers ''x-kiket-signature'' = [])
           \<and> hget headers ''X-Kiket-Timestamp'' = [] \<and> hget headers ''x-kiket-timestamp'' = []))"
proof -
  let ?h = "[''X-Kiket-Signature'' \<mapsto> header_lookup headers ''X-Kiket-Signature'' ''x-kiket-signature'',
        ''X-Kiket-Timestamp'' \<mapsto> header_lookup headers ''X-Kiket-Timestamp'' ''x-kiket-timestamp'']"
  have s: "received_signature ?h = received_signature headers"
    by (simp add: received_signature_def header_lookup_def hget_def)
  have t: "received_timestamp ?h = received_timestamp headers"
    by (simp add: received_timestamp_def header_lookup_def hget_def)
  have a: "VerifySignature secret body headers now = VerifySignature secret body ?h now"
    by (simp only: VerifySignature_unfold s t)
  have b: "(VerifySignature secret body headers now
           = Some \<lparr>Message = ''missing X-Kiket-Signature header''\<rparr>)
        = (hget headers ''X-Kiket-Signature'' = [] \<and> hget headers ''x-kiket-signature'' = [])"
    if "secret \<noteq> []"
    using that
    by (simp add: VerifySignature_unfold received_signature_def header_lookup_def
        freshness_message_def split: option.splits)
  have c: "(VerifySignature secret body headers now
           = Some \<lparr>Message = ''missing X-Kiket-Timestamp header''\<rparr>)
        = (\<not> (hget headers ''X-Kiket-Signature'' = [] \<and> hget headers ''x-kiket-signature'' = [])
           \<and> hget headers ''X-Kiket-Timestamp'' = [] \<and> hget headers ''x-kiket-timestamp'' = [])"
    if "secret \<noteq> []"
    using that
    by (simp add: VerifySignature_unfold received_signature_def received_timestamp_def
        header_lookup_def freshness_message_def split: option.splits)
  show ?thesis using a b c by blast
qed

theorem C9_two_spellings_witness:
  "''s3cr3t'' \<noteq> []
   \<and> VerifySignature ''s3cr3t'' [] [''x-kiket-signature'' \<mapsto> ''ab''] 1700000000
       = Some \<lparr>Message = ''missing X-Kiket-Timestamp header''\<rparr>
   \<and> VerifySignature ''s3cr3t'' [] [''X-Kiket-Timestamp'' \<mapsto> ''1700000000''] 1700000000
       = Some \<lparr>Message = ''missing X-Kiket-Signature header''\<rparr>"
proof -
  have n: "''s3cr3t'' \<noteq> []" by simp
  show ?thesis
    using C9_two_spellings [of "''s3cr3t''" "[]" "[''x-kiket-signature'' \<mapsto> ''ab'']" 1700000000,
        THEN conjunct2]
      C9_two_spellings [of "''s3cr3t''" "[]" "[''X-Kiket-Timestamp'' \<mapsto> ''1700000000'']" 1700000000,
        THEN conjunct2]
    by (simp add: hget_def)
qed

text \<open>
  C9 as stated fails: a signature header named \<open>X-KIKET-SIGNATURE\<close> is present under
  case-insensitive matching and is not found.
\<close>

theorem C9_counterexample:
  "map ascii_lower ''X-KIKET-SIGNATURE'' = map ascii_lower ''X-Kiket-Signature''
   \<and> VerifySignature ''s3cr3t'' []
        [''X-KIKET-SIGNATURE'' \<mapsto> ''ab'', ''X-Kiket-Timestamp'' \<mapsto> ''1700000000''] 1700000000
       = Some \<lparr>Message = ''missing X-Kiket-Signature header''\<rparr>"
  by (simp add: VerifySignature_unfold eval_defs ascii_lower_def)

text \<open>
  C2, as the code has it.  For every non-empty secret, every body and every timestamp
  \<open>T\<close> at most 300 seconds from \<open>now\<close>, \<open>VerifySignature\<close> returns \<open>nil\<close> on headers that
  carry the signature and the timestamp string of \<open>GenerateSignature\<close> for that secret,
  body and \<open>T\<close>: both sides hash the bytes of \<open>timestamp + "." + body\<close>.
\<close>

theorem C2_generate_then_verify:
  assumes "secret \<noteq> []"
    and "\<bar>sint now - sint T\<bar> \<le> 300"
    and "headers ''X-Kiket-Signature'' = Some (fst (GenerateSignature secret body (Some T) clock))"
    and "headers ''X-Kiket-Timestamp'' = Some (snd (GenerateSignature secret body (Some T) clock))"
  shows "VerifySignature secret (bytes_of_string body) headers now = None"
proof -
  let ?ts = "strconv_FormatInt T"
  let ?b = "bytes_of_string body"
  have "bytes_of_string (?ts @ ''.'' @ body) = bytes_of_string (?ts @ ''.'') @ ?b"
    using bytes_of_string_append [of "?ts @ ''.''" body] by simp
  then have g: "GenerateSignature secret body (Some T) clock
             = (expected_signature secret ?ts ?b, ?ts)"
    by (simp only: GenerateSignature_def Let_def expected_signature_def option.case)
  have ne: "expected_signature secret ?ts ?b \<noteq> []"
    by (simp add: expected_signature_def hmac_hex_nonempty)
  have sg: "received_signature headers = expected_signature secret ?ts ?b"
    using assms(3) ne
    by (simp add: g received_signature_def header_lookup_def hget_def)
  have ts: "received_timestamp headers = ?ts"
    using assms(4) FormatInt_nonempty [of T]
    by (simp add: g received_timestamp_def header_lookup_def hget_def)
  have d: "\<not> 300 < \<bar>sint (now - T)\<bar>"
    using sint_diff_small [OF assms(2)] assms(2) by simp
  show ?thesis
    using assms(1) d ne FormatInt_nonempty [of T]
    by (simp add: VerifySignature_unfold sg ts ParseInt_FormatInt)
qed

theorem C2_generate_then_verify_witness:
  "''s3cr3t'' \<noteq> []
   \<and> \<bar>sint (1700000300 :: 64 word) - sint (1700000000 :: 64 word)\<bar> \<le> 300
   \<and> VerifySignature ''s3cr3t'' (bytes_of_string ''{}'')
        [''X-Kiket-Signature'' \<mapsto> fst (GenerateSignature ''s3cr3t'' ''{}'' (Some 1700000000) 0),
         ''X-Kiket-Timestamp'' \<mapsto> snd (GenerateSignature ''s3cr3t'' ''{}'' (Some 1700000000) 0)]
        1700000300 = None"
proof -
  have a: "''s3cr3t'' \<noteq> []" by simp
  have b: "\<bar>sint (1700000300 :: 64 word) - sint (1700000000 :: 64 word)\<bar> \<le> 300" by simp
  show ?thesis
    using C2_generate_then_verify [OF a b, of _ "''{}''" 0] a b
    by simp
qed

text \<open>
  C2 as stated fails for the empty secret: verification of what \<open>GenerateSignature\<close>
  produced with it returns the configuration error.
\<close>

theorem C2_counterexample:
  "VerifySignature [] (bytes_of_string ''{}'')
     [''X-Kiket-Signature'' \<mapsto> fst (GenerateSignature [] ''{}'' (Some 1700000000) 0),
      ''X-Kiket-Timestamp'' \<mapsto> snd (GenerateSignature [] ''{}'' (Some 1700000000) 0)]
     1700000000
   = Some \<lparr>Message = ''webhook secret not configured''\<rparr>"
  by (simp add: VerifySignature_unfold)

text \<open>
  C3.  Let the clock reading be in range, the secret configured, and the headers carry
  a signature and a timestamp that parses to \<open>T\<close>.  When \<open>T\<close> is at most 300 seconds
  from \<open>now\<close>, in either direction, the outcome is that of the signature comparison.
  When it is 301 seconds or more away, in either direction, the outcome is the freshness
  error, whatever the signature.
\<close>

theorem C3_freshness_window:
  assumes "clock_in_range now" and "secret \<noteq> []"
    and "received_signature headers \<noteq> []"
    and "strconv_ParseInt (received_timestamp headers) = Some T"
  shows "(\<bar>sint now - sint T\<bar> \<le> 300 \<longrightarrow>
            VerifySignature secret body headers now =
              (if received_signature headers
                    = expected_signature secret (received_timestamp headers) body
               then None else Some \<lparr>Message = ''invalid signature''\<rparr>))
       \<and> (301 \<le> \<bar>sint now - sint T\<bar> \<longrightarrow>
            VerifySignature secret body headers now =
              Some \<lparr>Message =
                freshness_message (math_Abs (float64_of_int (sint (now - T))))\<rparr>)"
proof -
  have ne: "received_timestamp headers \<noteq> []"
    using assms(4) by (auto simp: strconv_ParseInt_def)
  show ?thesis
    using assms(2,3,4) ne
    by (auto simp: VerifySignature_unfold fresh_iff [OF assms(1)])
qed

theorem C3_freshness_window_witness:
  "clock_in_range 1700000300 \<and> clock_in_range 1700000301
   \<and> strconv_ParseInt ''1700000000'' = Some 1700000000
   \<and> \<bar>sint (1700000300 :: 64 word) - sint (1700000000 :: 64 word)\<bar> = 300
   \<and> \<bar>sint (1700000301 :: 64 word) - sint (1700000000 :: 64 word)\<bar> = 301
   \<and> VerifySignature ''s3cr3t'' []
        [''X-Kiket-Signature'' \<mapsto> expected_signature ''s3cr3t'' ''1700000000'' [],
         ''X-Kiket-Timestamp'' \<mapsto> ''1700000000''] 1700000300 = None
   \<and> VerifySignature ''s3cr3t'' []
        [''X-Kiket-Signature'' \<mapsto> expected_signature ''s3cr3t'' ''1700000000'' [],
         ''X-Kiket-Timestamp'' \<mapsto> ''1700000000''] 1700000301
       = Some \<lparr>Message = ''request timestamp too old or too far in future: 301s''\<rparr>"
proof -
  let ?h = "[''X-Kiket-Signature'' \<mapsto> expected_signature ''s3cr3t'' ''1700000000'' [],
         ''X-Kiket-Timestamp'' \<mapsto> ''1700000000'']"
  have c: "clock_in_range 1700000300" "clock_in_range 1700000301"
    by (simp_all add: clock_in_range_def)
  have n: "''s3cr3t'' \<noteq> []" by simp
  have e: "expected_signature ''s3cr3t'' ''1700000000'' [] \<noteq> []"
    by (simp add: expected_signature_def hmac_hex_nonempty)
  have s: "received_signature ?h = expected_signature ''s3cr3t'' ''1700000000'' []"
    using e by (simp add: received_signature_def header_lookup_def hget_def)
  have t: "received_timestamp ?h = ''1700000000''"
    by (simp add: received_timestamp_def header_lookup_def hget_def)
  have p: "strconv_ParseInt ''1700000000'' = Some 1700000000"
    by (simp add: strconv_ParseInt_def digit_val_def)
  have s': "received_signature ?h \<noteq> []" using e s by simp
  have p': "strconv_ParseInt (received_timestamp ?h) = Some 1700000000" using p t by simp
  have m: "freshness_message (math_Abs (float64_of_int 301))
     = ''request timestamp too old or too far in future: 301s''"
    by (simp add: freshness_message_def math_Abs_def float64_of_int_def round53_def
        bitlen_le_iff_power fmt_f0_def fmt_nat.simps digit_char_def char_of_def bit_Suc_0_iff)
  show ?thesis
    using C3_freshness_window [OF c(1) n s' p', of "[]"]
      C3_freshness_window [OF c(2) n s' p', of "[]"] c p
    by (simp add: s t m)
qed

end
